theory Spec2Isabelle
  imports Complex_Main "HOL-Library.Char_ord" "HOL-Library.List_Lexorder" "HOL-Library.AList"
begin

section \<open>Strings and file names\<close>

text \<open>
  Python strings are modelled as \<open>string\<close> (a list of 8-bit characters). The builtin
  \<open>str.isalnum\<close> is modelled on the ASCII range: letters and digits. Python also accepts
  letters and digits beyond ASCII; the sanitising function is therefore defined for an
  arbitrary character class first (\<open>sanitize_with\<close>) and instantiated afterwards.
\<close>

definition isalnum :: "char \<Rightarrow> bool" where
  "isalnum c \<longleftrightarrow>
     c \<in> set ''abcdefghijklmnopqrstuvwxyzABCDEFGHIJKLMNOPQRSTUVWXYZ0123456789''"

text \<open>
  \<^verbatim>\<open>"".join(c if c.isalnum() or c in ("_", "-") else "_" for c in name)\<close>
\<close>

definition sanitize_with :: "(char \<Rightarrow> bool) \<Rightarrow> string \<Rightarrow> string" where
  "sanitize_with alnum name =
     map (\<lambda>c. if alnum c \<or> c \<in> {CHR ''_'', CHR ''-''} then c else CHR ''_'') name"

definition sanitize_name :: "string \<Rightarrow> string" where
  "sanitize_name name = sanitize_with isalnum name"

text \<open>
  \<open>os.path.splitext\<close> on a directory entry (no separator inside): the extension starts at
  the last dot, unless only dots precede that dot; then the extension is empty.
\<close>

fun rfind :: "char \<Rightarrow> string \<Rightarrow> nat option" where
  "rfind c [] = None"
| "rfind c (x # xs) =
     (case rfind c xs of
        Some k \<Rightarrow> Some (Suc k)
      | None \<Rightarrow> if x = c then Some 0 else None)"

definition splitext :: "string \<Rightarrow> string \<times> string" where
  "splitext p =
     (case rfind (CHR ''.'') p of
        None \<Rightarrow> (p, [])
      | Some d \<Rightarrow>
          if list_ex (\<lambda>c. c \<noteq> CHR ''.'') (take d p) then (take d p, drop d p)
          else (p, []))"

text \<open>\<open>str.lower\<close>, on the ASCII range.\<close>

definition lower_char :: "char \<Rightarrow> char" where
  "lower_char c =
     (case map_of (zip ''ABCDEFGHIJKLMNOPQRSTUVWXYZ'' ''abcdefghijklmnopqrstuvwxyz'') c of
        Some l \<Rightarrow> l
      | None \<Rightarrow> c)"

definition lower :: "string \<Rightarrow> string" where
  "lower s = map lower_char s"

definition endswith :: "string \<Rightarrow> string \<Rightarrow> bool" where
  "endswith s suffix \<longleftrightarrow>
     length suffix \<le> length s \<and> drop (length s - length suffix) s = suffix"

text \<open>The decimal numeral of a natural number, as an f-string prints a counter.\<close>

definition digit_char :: "nat \<Rightarrow> char" where
  "digit_char d = ''0123456789'' ! d"

fun str_nat :: "nat \<Rightarrow> string" where
  "str_nat n =
     (if n < 10 then [digit_char n] else str_nat (n div 10) @ [digit_char (n mod 10)])"

declare str_nat.simps [simp del]

section \<open>The working tree\<close>

text \<open>
  Pixel data is kept symbolically: an image read from a file holds \<open>Whole name\<close>, and a
  crop holds the region \<open>(left, upper, right, lower)\<close> of the data it was cut from. The
  size of a crop is the size of its box, as in PIL.
\<close>

datatype pixels = Whole string | Region pixels "int \<times> int \<times> int \<times> int"

datatype image = Image (width: int) (height: int) (data: pixels)

text \<open>
  An entry of the image directory is a sub-directory or a regular file; a regular file
  holds an image when PIL can decode it.
\<close>

datatype entry = Directory | Regular "image option"

text \<open>A page document: title, viewport, body class and the image it shows, if any.\<close>

datatype xhtml =
  Xhtml (title: string) (viewport: "int \<times> int") (body_class: string) (img_src: "string option")

type_synonym images_dir = "(string \<times> entry) list"
type_synonym text_dir = "(string \<times> xhtml) list"

definition path_exists :: "(string \<times> 'a) list \<Rightarrow> string \<Rightarrow> bool" where
  "path_exists d f \<longleftrightarrow> f \<in> set (map fst d)"

definition isfile :: "images_dir \<Rightarrow> string \<Rightarrow> bool" where
  "isfile d f \<longleftrightarrow> (case map_of d f of Some (Regular _) \<Rightarrow> True | _ \<Rightarrow> False)"

definition listdir_sorted :: "(string \<times> 'a) list \<Rightarrow> string list" where
  "listdir_sorted d = sort (map fst d)"

section \<open>The spine and manifest builder\<close>

datatype side = Left | Right | Center

datatype itemref = Itemref (idref: string) (spread: side)

datatype manifest_item =
  Item (item_id: string) (href: string) (media_type: string) (properties: "string option")

datatype message =
    Xhtml_not_found string string
  | Inserted_blank string "side option" side

record opf_state =
  manifest_items :: "manifest_item list"
  spine_items :: "itemref list"
  cover_image_id :: "string option"
  blank_counter :: nat
  last_side :: "side option"
  next_side :: side
  text_files :: text_dir
  printed :: "message list"

definition image_media_type :: "string \<Rightarrow> string" where
  "image_media_type ext_lower =
     (if ext_lower \<in> {''.jpg'', ''.jpeg''} then ''image/jpeg''
      else if ext_lower = ''.png'' then ''image/png''
      else if ext_lower = ''.gif'' then ''image/gif''
      else if ext_lower = ''.svg'' then ''image/svg+xml''
      else ''image/jpeg'')"

definition opf_image_extensions :: "string list" where
  "opf_image_extensions = [''.jpg'', ''.jpeg'', ''.png'', ''.gif'', ''.bmp'', ''.webp'', ''.svg'']"

definition list_image_files :: "images_dir \<Rightarrow> string list" where
  "list_image_files d =
     filter (\<lambda>filename. isfile d filename
                \<and> lower (snd (splitext filename)) \<in> set opf_image_extensions)
       (listdir_sorted d)"

definition normalize_direction :: "string \<Rightarrow> string" where
  "normalize_direction reading_direction =
     (let rd = lower reading_direction in if rd \<notin> {''rtl'', ''ltr''} then ''rtl'' else rd)"

definition add_spine_page :: "string \<Rightarrow> side \<Rightarrow> opf_state \<Rightarrow> opf_state" where
  "add_spine_page page_id s st =
     st\<lparr>spine_items := spine_items st @ [Itemref page_id s],
        last_side := Some s,
        next_side := (if s = Right then Left else Right)\<rparr>"

text \<open>
  \<open>blank_res\<close> is the pair that \<open>parse_resolution(original_resolution)\<close> returns; the
  parsing itself is not modelled.
\<close>

definition add_blank_page :: "int \<times> int \<Rightarrow> side \<Rightarrow> opf_state \<Rightarrow> opf_state" where
  "add_blank_page blank_res s st =
     (let n = blank_counter st + 1;
          blank_id = ''page_blank_'' @ str_nat n;
          blank_xhtml_filename = ''page_blank_'' @ str_nat n @ ''.xhtml''
      in add_spine_page blank_id s
           (st\<lparr>blank_counter := n,
               text_files := text_files st
                 @ [(blank_xhtml_filename, Xhtml ''blank'' blank_res ''blank-page'' None)],
               manifest_items := manifest_items st
                 @ [Item blank_id (''Text/'' @ blank_xhtml_filename)
                      ''application/xhtml+xml'' None]\<rparr>))"

definition xhtml_name :: "string \<Rightarrow> string" where
  "xhtml_name img_name = ''page_'' @ sanitize_name (fst (splitext img_name)) @ ''_F.xhtml''"

definition page_id_of :: "string \<Rightarrow> string" where
  "page_id_of img_name = ''page_Images_'' @ sanitize_name (fst (splitext img_name)) @ ''_F''"

definition image_id_of :: "string \<Rightarrow> string" where
  "image_id_of img_name = ''img_Images_'' @ sanitize_name (fst (splitext img_name))"

text \<open>
  The local \<open>root_name\<close> of the loop body: the sanitised base name without a trailing
  \<open>_a\<close> or \<open>_b\<close>.
\<close>

definition root_name_of :: "string \<Rightarrow> string" where
  "root_name_of safe_name =
     (if endswith safe_name ''_a'' \<or> endswith safe_name ''_b''
      then take (length safe_name - 2) safe_name else safe_name)"

definition part_letter_of :: "string \<Rightarrow> char option" where
  "part_letter_of safe_name =
     (if endswith safe_name ''_a'' \<or> endswith safe_name ''_b''
      then Some (last safe_name) else None)"

text \<open>
  The flag \<open>is_double_group_start\<close> of the loop body at index \<open>i\<close>: the image is an
  \<open>_a\<close> half and the next file is its \<open>_b\<close> sibling with the same extension.
\<close>

definition is_double_group_start :: "string list \<Rightarrow> nat \<Rightarrow> bool" where
  "is_double_group_start image_files i \<longleftrightarrow>
     (let (base, ext) = splitext (image_files ! i);
          safe_name = sanitize_name base
      in part_letter_of safe_name = Some (CHR ''a'')
         \<and> i + 1 < length image_files
         \<and> (let (base_next, ext_next) = splitext (image_files ! (i + 1))
            in sanitize_name base_next = root_name_of safe_name @ ''_b''
               \<and> lower ext_next = lower ext))"

definition desired_side_a :: "string \<Rightarrow> side" where
  "desired_side_a rd = (if rd = ''rtl'' then Right else Left)"

definition page_items :: "string \<Rightarrow> manifest_item list" where
  "page_items img_name =
     [Item (page_id_of img_name) (''Text/'' @ xhtml_name img_name) ''application/xhtml+xml'' None,
      Item (image_id_of img_name) (''Images/'' @ img_name)
        (image_media_type (lower (snd (splitext img_name)))) None]"

definition add_manifest :: "manifest_item list \<Rightarrow> opf_state \<Rightarrow> opf_state" where
  "add_manifest items st = st\<lparr>manifest_items := manifest_items st @ items\<rparr>"

definition print_msg :: "message \<Rightarrow> opf_state \<Rightarrow> opf_state" where
  "print_msg m st = st\<lparr>printed := printed st @ [m]\<rparr>"

text \<open>
  The sequence that the loop body runs for half A, for half B and for a simple page: the
  manifest items of the page and of its image, then \<open>add_spine_page(page_id, next_side)\<close>.
\<close>

definition emit_page :: "string \<Rightarrow> opf_state \<Rightarrow> opf_state" where
  "emit_page img_name st =
     (let st1 = add_manifest (page_items img_name) st
      in add_spine_page (page_id_of img_name) (next_side st1) st1)"

text \<open>
  \<^verbatim>\<open>if last_side is not None and next_side != desired_side_a: add_blank_page(next_side); print(...)\<close>
\<close>

definition blank_before_double ::
  "string \<Rightarrow> int \<times> int \<Rightarrow> string \<Rightarrow> opf_state \<Rightarrow> opf_state" where
  "blank_before_double rd blank_res root_name st =
     (if last_side st \<noteq> None \<and> next_side st \<noteq> desired_side_a rd
      then (let b = add_blank_page blank_res (next_side st) st
            in print_msg (Inserted_blank root_name (last_side b) (next_side b)) b)
      else st)"

text \<open>Half B of a double spread: a warning when its page document is missing.\<close>

definition emit_half_b :: "string \<Rightarrow> opf_state \<Rightarrow> opf_state" where
  "emit_half_b img_name_b st =
     (if \<not> path_exists (text_files st) (xhtml_name img_name_b)
      then print_msg (Xhtml_not_found img_name_b (xhtml_name img_name_b)) st
      else emit_page img_name_b st)"

text \<open>The cover branch: two manifest items, the cover id and a centred spine entry.\<close>

definition emit_cover :: "string \<Rightarrow> opf_state \<Rightarrow> opf_state" where
  "emit_cover img_name st =
     (add_manifest
        [Item (page_id_of img_name) (''Text/'' @ xhtml_name img_name)
           ''application/xhtml+xml'' None,
         Item ''cover'' (''Images/'' @ img_name)
           (image_media_type (lower (snd (splitext img_name)))) (Some ''cover-image'')] st)
       \<lparr>cover_image_id := Some ''cover'',
         spine_items := spine_items st @ [Itemref (page_id_of img_name) Center]\<rparr>"

text \<open>
  One pass through the body of the \<open>while i < len(image_files)\<close> loop, for
  \<open>i < length image_files\<close>: the new index and the new state.
\<close>

definition opf_step ::
  "bool \<Rightarrow> string \<Rightarrow> int \<times> int \<Rightarrow> string list \<Rightarrow> nat \<Rightarrow> opf_state \<Rightarrow> nat \<times> opf_state" where
  "opf_step has_cover rd blank_res image_files i st =
     (let img_name = image_files ! i in
      if \<not> path_exists (text_files st) (xhtml_name img_name) then
        (i + 1, print_msg (Xhtml_not_found img_name (xhtml_name img_name)) st)
      else if has_cover \<and> i = 0 then
        (i + 1, emit_cover img_name st)
      else if is_double_group_start image_files i then
        (i + 2,
         emit_half_b (image_files ! (i + 1))
           (emit_page img_name
              (blank_before_double rd blank_res
                 (root_name_of (sanitize_name (fst (splitext img_name)))) st)))
      else
        (i + 1, emit_page img_name st))"

lemma opf_step_advances:
  "fst (opf_step has_cover rd blank_res image_files i st) \<in> {i + 1, i + 2}"
  by (simp add: opf_step_def Let_def)

function opf_loop ::
  "bool \<Rightarrow> string \<Rightarrow> int \<times> int \<Rightarrow> string list \<Rightarrow> nat \<Rightarrow> opf_state \<Rightarrow> opf_state" where
  "opf_loop has_cover rd blank_res image_files i st =
     (if i < length image_files
      then (case opf_step has_cover rd blank_res image_files i st of
              (i', st') \<Rightarrow> opf_loop has_cover rd blank_res image_files i' st')
      else st)"
  by pat_completeness auto

termination
proof (relation "measure (\<lambda>(has_cover, rd, blank_res, image_files, i, st). length image_files - i)",
    goal_cases)
  case 1
  show ?case by simp
next
  case (2 has_cover rd blank_res image_files i st i' st')
  have "fst (opf_step has_cover rd blank_res image_files i st) = i'"
    using 2 by (metis fst_conv)
  then have "i' \<in> {i + 1, i + 2}"
    using opf_step_advances [of has_cover rd blank_res image_files i st] by simp
  then show ?case
    using 2(1) 2(2) [symmetric] by auto
qed

declare opf_loop.simps [simp del]

definition initial_state :: "text_dir \<Rightarrow> opf_state" where
  "initial_state txt =
     \<lparr>manifest_items =
        [Item ''nav'' ''nav.xhtml'' ''application/xhtml+xml'' (Some ''nav''),
         Item ''ncx'' ''toc.ncx'' ''application/x-dtbncx+xml'' None,
         Item ''css'' ''Text/style.css'' ''text/css'' None],
      spine_items = [],
      cover_image_id = None,
      blank_counter = 0,
      last_side = None,
      next_side = Right,
      text_files = txt,
      printed = []\<rparr>"

text \<open>
  \<open>generate_content_opf\<close> up to the end of its loop: the state from which
  \<open>content.opf\<close> is written. File writes are taken to succeed.
\<close>

definition generate_content_opf ::
  "bool \<Rightarrow> string \<Rightarrow> int \<times> int \<Rightarrow> images_dir \<Rightarrow> text_dir \<Rightarrow> opf_state" where
  "generate_content_opf has_cover reading_direction blank_res images txt =
     opf_loop has_cover (normalize_direction reading_direction) blank_res
       (list_image_files images) 0 (initial_state txt)"


section \<open>The double-page splitter\<close>

text \<open>
  Operations on files and images can fail. Whether a crop, a save of an image, a write of
  a page document or a removal succeeds is a parameter of the model. A failed operation
  leaves the directories as they were.
\<close>

record io =
  crop_ok :: "string \<Rightarrow> int \<times> int \<times> int \<times> int \<Rightarrow> bool"
  save_ok :: "string \<Rightarrow> bool"
  write_ok :: "string \<Rightarrow> bool"
  remove_ok :: "string \<Rightarrow> bool"

datatype notice =
    Skipping_non_raster string
  | Cannot_read_size string
  | Created_split side string "int \<times> int"
  | Error_splitting string
  | Removed_original string
  | Could_not_remove string
  | Created_single string "int \<times> int"

datatype failure = Write_failed string

record pages_state =
  img_dir :: images_dir
  txt_dir :: text_dir
  notices :: "notice list"

definition xhtml_image_extensions :: "string list" where
  "xhtml_image_extensions = [''.jpg'', ''.jpeg'', ''.png'', ''.gif'', ''.bmp'', ''.webp'']"

definition notify :: "notice \<Rightarrow> pages_state \<Rightarrow> pages_state" where
  "notify n st = st\<lparr>notices := notices st @ [n]\<rparr>"

text \<open>\<open>Image.open(src_path)\<close>: the image of a regular file that PIL can decode.\<close>

definition image_open :: "images_dir \<Rightarrow> string \<Rightarrow> image option" where
  "image_open d f = (case map_of d f of Some (Regular (Some img)) \<Rightarrow> Some img | _ \<Rightarrow> None)"

text \<open>
  \<open>img.crop(box)\<close> with \<open>box = (left, upper, right, lower)\<close>, here
  \<open>(x0, y0, x1, y1)\<close>.
\<close>

definition crop :: "image \<Rightarrow> int \<times> int \<times> int \<times> int \<Rightarrow> image" where
  "crop img box =
     (case box of (x0, y0, x1, y1) \<Rightarrow>
        Image (x1 - x0) (y1 - y0) (Region (data img) box))"

text \<open>The list \<open>parts\<close>: suffix letter, side and crop box of the two halves.\<close>

definition parts_for ::
  "string \<Rightarrow> int \<Rightarrow> int \<Rightarrow> int \<Rightarrow> (char \<times> side \<times> int \<times> int \<times> int \<times> int) list" where
  "parts_for rd half_width img_width img_height =
     (let box_left = (0, 0, half_width, img_height);
          box_right = (half_width, 0, img_width, img_height)
      in if rd = ''ltr''
         then [(CHR ''a'', Left, box_left), (CHR ''b'', Right, box_right)]
         else [(CHR ''a'', Right, box_right), (CHR ''b'', Left, box_left)])"

text \<open>
  The body of \<open>for suffix_letter, side, box in parts\<close>: crop, save the half, write its
  page document. The flag is \<open>False\<close> when an exception left the body; the state is the
  one reached then. Saving onto a directory fails.
\<close>

definition split_part ::
  "io \<Rightarrow> image \<Rightarrow> string \<Rightarrow> string \<Rightarrow> int \<Rightarrow> int
   \<Rightarrow> char \<times> side \<times> int \<times> int \<times> int \<times> int \<Rightarrow> pages_state \<Rightarrow> bool \<times> pages_state" where
  "split_part io img safe_base ext half_width img_height part st =
     (case part of (suffix_letter, sd, box) \<Rightarrow>
        (let part_base = safe_base @ ''_'' @ [suffix_letter];
             part_img_name = part_base @ ext;
             xhtml_filename = ''page_'' @ part_base @ ''_F.xhtml''
         in if \<not> crop_ok io part_img_name box then (False, st)
            else if \<not> save_ok io part_img_name
                    \<or> map_of (img_dir st) part_img_name = Some Directory then (False, st)
            else (let st1 = st\<lparr>img_dir :=
                               AList.update part_img_name (Regular (Some (crop img box)))
                                 (img_dir st)\<rparr>
                  in if \<not> write_ok io xhtml_filename then (False, st1)
                     else (True,
                           notify (Created_split sd xhtml_filename (half_width, img_height))
                             (st1\<lparr>txt_dir :=
                                    AList.update xhtml_filename
                                      (Xhtml (''page_'' @ part_base @ ''_F'')
                                         (half_width, img_height) ''single-page''
                                         (Some (''../Images/'' @ part_img_name)))
                                      (txt_dir st1)\<rparr>)))))"

fun split_parts ::
  "io \<Rightarrow> image \<Rightarrow> string \<Rightarrow> string \<Rightarrow> int \<Rightarrow> int
   \<Rightarrow> (char \<times> side \<times> int \<times> int \<times> int \<times> int) list \<Rightarrow> pages_state \<Rightarrow> bool \<times> pages_state" where
  "split_parts io img safe_base ext half_width img_height [] st = (True, st)"
| "split_parts io img safe_base ext half_width img_height (part # parts) st =
     (case split_part io img safe_base ext half_width img_height part st of
        (True, st') \<Rightarrow> split_parts io img safe_base ext half_width img_height parts st'
      | (False, st') \<Rightarrow> (False, st'))"

text \<open>
  The \<open>try\<close> block of the double-page case: the image is opened again, then the parts
  are processed in order.
\<close>

definition try_split ::
  "io \<Rightarrow> string \<Rightarrow> string \<Rightarrow> string \<Rightarrow> string \<Rightarrow> int \<Rightarrow> int \<Rightarrow> pages_state
   \<Rightarrow> bool \<times> pages_state" where
  "try_split io rd filename safe_base ext img_width img_height st =
     (case image_open (img_dir st) filename of
        None \<Rightarrow> (False, st)
      | Some img \<Rightarrow>
          split_parts io img safe_base ext (img_width div 2) img_height
            (parts_for rd (img_width div 2) img_width img_height) st)"

text \<open>\<open>os.remove(src_path)\<close> after a split that worked; a failure is only reported.\<close>

definition remove_original :: "io \<Rightarrow> string \<Rightarrow> pages_state \<Rightarrow> pages_state" where
  "remove_original io filename st =
     (if remove_ok io filename
      then notify (Removed_original filename)
             (st\<lparr>img_dir := AList.delete filename (img_dir st)\<rparr>)
      else notify (Could_not_remove filename) st)"

text \<open>
  The single-page case, also the fallback after a failed split. The write is outside any
  \<open>try\<close>: a failure ends the run.
\<close>

definition single_page ::
  "io \<Rightarrow> string \<Rightarrow> string \<Rightarrow> int \<times> int \<Rightarrow> pages_state \<Rightarrow> failure + pages_state" where
  "single_page io filename safe_name dims st =
     (let xhtml_filename = ''page_'' @ safe_name @ ''_F.xhtml''
      in if \<not> write_ok io xhtml_filename then Inl (Write_failed xhtml_filename)
         else Inr (notify (Created_single xhtml_filename dims)
                     (st\<lparr>txt_dir :=
                           AList.update xhtml_filename
                             (Xhtml (''page_'' @ safe_name @ ''_F'') dims ''single-page''
                                (Some (''../Images/'' @ filename)))
                             (txt_dir st)\<rparr>)))"

text \<open>
  The test \<open>ratio >= double_page_ratio\<close> compares floating-point numbers. It is the
  parameter \<open>ratio_ge\<close>, applied to the exact quotient \<open>img_width / img_height\<close> (or to
  0 when the height is not positive), of which the floating-point ratio is a function.
\<close>

definition is_double_page :: "(rat \<Rightarrow> bool) \<Rightarrow> int \<Rightarrow> int \<Rightarrow> bool" where
  "is_double_page ratio_ge img_width img_height =
     ratio_ge (if img_height > 0 then of_int img_width / of_int img_height else 0)"

text \<open>The body of \<open>for filename in filenames\<close> in \<open>generate_xhtml_pages\<close>.\<close>

definition page_step ::
  "io \<Rightarrow> (rat \<Rightarrow> bool) \<Rightarrow> int \<times> int \<Rightarrow> string \<Rightarrow> string \<Rightarrow> pages_state
   \<Rightarrow> failure + pages_state" where
  "page_step io ratio_ge fallback rd filename st =
     (if \<not> isfile (img_dir st) filename then Inr st
      else (case splitext filename of (name, ext) \<Rightarrow>
        if lower ext \<notin> set xhtml_image_extensions
        then Inr (notify (Skipping_non_raster filename) st)
        else
          (let opened = image_open (img_dir st) filename;
               dims = (case opened of Some img \<Rightarrow> (width img, height img) | None \<Rightarrow> fallback);
               st0 = (case opened of Some img \<Rightarrow> st
                      | None \<Rightarrow> notify (Cannot_read_size filename) st);
               safe_base = sanitize_name name
           in if is_double_page ratio_ge (fst dims) (snd dims) \<and> fst dims > 1
              then (case try_split io rd filename safe_base ext (fst dims) (snd dims) st0 of
                      (True, st1) \<Rightarrow> Inr (remove_original io filename st1)
                    | (False, st1) \<Rightarrow>
                        single_page io filename safe_base dims
                          (notify (Error_splitting filename) st1))
              else single_page io filename safe_base dims st0)))"

fun pages_loop ::
  "io \<Rightarrow> (rat \<Rightarrow> bool) \<Rightarrow> int \<times> int \<Rightarrow> string \<Rightarrow> string list \<Rightarrow> pages_state
   \<Rightarrow> failure + pages_state" where
  "pages_loop io ratio_ge fallback rd [] st = Inr st"
| "pages_loop io ratio_ge fallback rd (filename # filenames) st =
     (case page_step io ratio_ge fallback rd filename st of
        Inl e \<Rightarrow> Inl e
      | Inr st' \<Rightarrow> pages_loop io ratio_ge fallback rd filenames st')"

text \<open>
  \<open>generate_xhtml_pages\<close>: the list of file names is taken once, sorted, before the loop.
\<close>

definition generate_xhtml_pages ::
  "io \<Rightarrow> (rat \<Rightarrow> bool) \<Rightarrow> int \<times> int \<Rightarrow> string \<Rightarrow> pages_state \<Rightarrow> failure + pages_state" where
  "generate_xhtml_pages io ratio_ge fallback reading_direction st =
     pages_loop io ratio_ge fallback (normalize_direction reading_direction)
       (listdir_sorted (img_dir st)) st"

text \<open>
  Steps 3 and 4 of \<open>run_pipeline_folder\<close>: the page documents are generated into an empty
  text directory, then the spine is built from the directories that result. The fallback
  size and the size of blank pages both come from \<open>original_resolution\<close>.
\<close>

definition run_pipeline_folder ::
  "io \<Rightarrow> (rat \<Rightarrow> bool) \<Rightarrow> bool \<Rightarrow> string \<Rightarrow> int \<times> int \<Rightarrow> images_dir \<Rightarrow> failure + opf_state" where
  "run_pipeline_folder io ratio_ge has_cover reading_direction res copied =
     (case generate_xhtml_pages io ratio_ge res reading_direction
             \<lparr>img_dir = copied, txt_dir = [], notices = []\<rparr> of
        Inl e \<Rightarrow> Inl e
      | Inr st \<Rightarrow>
          Inr (generate_content_opf has_cover reading_direction res (img_dir st) (txt_dir st)))"

text \<open>An environment in which no operation fails, and a ratio test with threshold 13/10.\<close>

definition io_ok :: io where
  "io_ok = \<lparr>crop_ok = (\<lambda>f b. True), save_ok = (\<lambda>f. True), write_ok = (\<lambda>f. True),
            remove_ok = (\<lambda>f. True)\<rparr>"

definition ge_13_10 :: "rat \<Rightarrow> bool" where
  "ge_13_10 q \<longleftrightarrow> q \<ge> 13 / 10"

section \<open>The package assembler\<close>

text \<open>
  The working tree under \<open>temp/\<close> as \<open>os.walk\<close> sees it: a directory has its files
  (name and content) and its sub-directories, each in the order the system lists them.
\<close>

datatype tree = Tree (files: "(string \<times> string) list") (subdirs: "(string \<times> tree) list")

datatype compression = ZIP_STORED | ZIP_DEFLATED

datatype zip_entry = Zip_entry (arcname: string) (compress_type: compression) (content: string)

datatype os_error = FileNotFoundError string

text \<open>
  \<open>os.walk(top)\<close> followed by \<open>for filename in files\<close>: the full path and content of
  every file, a directory before its sub-directories. Paths are lists of components.
\<close>

fun walk :: "string list \<Rightarrow> tree \<Rightarrow> (string list \<times> string) list" where
  "walk dirpath (Tree fs ds) =
     map (\<lambda>(filename, c). (dirpath @ [filename], c)) fs
     @ concat (map (\<lambda>(d, t). walk (dirpath @ [d]) t) ds)"

fun join_path :: "string list \<Rightarrow> string" where
  "join_path [] = []"
| "join_path [x] = x"
| "join_path (x # y # ys) = x @ ''/'' @ join_path (y # ys)"

text \<open>\<open>os.path.relpath(path, start)\<close> for a path below \<open>start\<close>.\<close>

definition relpath :: "string list \<Rightarrow> string list \<Rightarrow> string list" where
  "relpath path start = drop (length start) path"

text \<open>
  \<open>create_epub_from_temp\<close>: the entries of the archive in the order they are written.
  \<open>temp\<close> is the directory at \<open>base_path/temp\<close>, if there is one. The writes to the
  archive are taken to succeed.
\<close>

definition create_epub_from_temp ::
  "string list \<Rightarrow> tree option \<Rightarrow> os_error + zip_entry list" where
  "create_epub_from_temp base_path temp =
     (let temp_dir = base_path @ [''temp''];
          mimetype_path = temp_dir @ [''mimetype'']
      in case temp of
           None \<Rightarrow> Inl (FileNotFoundError (join_path temp_dir))
         | Some t \<Rightarrow>
             (case map_of (files t) ''mimetype'' of
                None \<Rightarrow> Inl (FileNotFoundError (join_path mimetype_path))
              | Some c \<Rightarrow>
                  Inr (Zip_entry ''mimetype'' ZIP_STORED c
                       # map (\<lambda>(full_path, c).
                                Zip_entry (join_path (relpath full_path temp_dir)) ZIP_DEFLATED c)
                           (filter (\<lambda>(full_path, c). full_path \<noteq> mimetype_path)
                              (walk temp_dir t)))))"

definition demo_tree :: tree where
  "demo_tree =
     Tree [(''notes.txt'', ''n''), (''mimetype'', ''application/epub+zip'')]
       [(''OEBPS'', Tree [(''content.opf'', ''o''), (''mimetype'', ''m'')]
                     [(''Text'', Tree [(''style.css'', ''s'')] [])]),
        (''META-INF'', Tree [(''container.xml'', ''c'')] [])]"

section \<open>Properties of the spine\<close>

text \<open>
  A list of sides alternates from \<open>s\<close>: its first element is \<open>s\<close>, and each element is
  followed by the opposite side.
\<close>

fun alternating :: "side \<Rightarrow> side list \<Rightarrow> bool" where
  "alternating s [] = True"
| "alternating s (x # xs) = (x = s \<and> alternating (if s = Right then Left else Right) xs)"

text \<open>The sides of the spine entries that are not centred.\<close>

definition page_sides :: "itemref list \<Rightarrow> side list" where
  "page_sides spine = filter (\<lambda>s. s \<noteq> Center) (map spread spine)"

text \<open>The invariant of the loop: the sides used so far, then \<open>next_side\<close>, alternate.\<close>

definition sides_inv :: "opf_state \<Rightarrow> bool" where
  "sides_inv st \<longleftrightarrow> alternating Right (page_sides (spine_items st) @ [next_side st])"

definition no_center :: "opf_state \<Rightarrow> bool" where
  "no_center st \<longleftrightarrow> Center \<notin> spread ` set (spine_items st)"

definition plain_inv :: "opf_state \<Rightarrow> bool" where
  "plain_inv st \<longleftrightarrow> sides_inv st \<and> no_center st \<and> cover_image_id st = None"



section \<open>Example inputs\<close>





section \<open>Sanitisation\<close>

text \<open>
  Claim C6. Sanitising a name twice gives the same result as sanitising it once, for every
  input string and whatever characters count as alphanumeric.
\<close>

theorem sanitize_name_idempotent:
  "sanitize_with alnum (sanitize_with alnum x) = sanitize_with alnum x
   \<and> sanitize_name (sanitize_name x) = sanitize_name x"
  by (simp add: sanitize_name_def sanitize_with_def)

section \<open>Side alternation\<close>

lemma alternating_last_not_center:
  "alternating s (xs @ [n]) \<Longrightarrow> s \<noteq> Center \<Longrightarrow> n \<noteq> Center"
  by (induction xs arbitrary: s) (auto split: if_splits)

lemma alternating_snoc_flip:
  "alternating s (xs @ [n]) \<Longrightarrow> alternating s (xs @ [n, if n = Right then Left else Right])"
  by (induction xs arbitrary: s) auto

lemma alternating_butlast: "alternating s (xs @ [n]) \<Longrightarrow> alternating s xs"
  by (induction xs arbitrary: s) auto

lemma opf_loop_invariant:
  "P st \<Longrightarrow>
   (\<And>i st. i < length image_files \<Longrightarrow> P st
      \<Longrightarrow> P (snd (opf_step has_cover rd blank_res image_files i st))) \<Longrightarrow>
   P (opf_loop has_cover rd blank_res image_files i st)"
proof (induction has_cover rd blank_res image_files i st rule: opf_loop.induct)
  case (1 has_cover rd blank_res image_files i st)
  show ?case
  proof (cases "i < length image_files")
    case True
    obtain i' st' where s: "opf_step has_cover rd blank_res image_files i st = (i', st')"
      by (cases "opf_step has_cover rd blank_res image_files i st")
    have p: "P st'" using "1.prems"(2) [OF True "1.prems"(1)] s by simp
    have "P (opf_loop has_cover rd blank_res image_files i' st')"
      by (rule "1.IH" [OF True s [symmetric] p "1.prems"(2)])
    then show ?thesis
      using True s by (simp add: opf_loop.simps [of has_cover rd blank_res image_files i st])
  next
    case False
    then show ?thesis
      using "1.prems"(1) by (simp add: opf_loop.simps [of has_cover rd blank_res image_files i st])
  qed
qed

lemma page_sides_snoc:
  "page_sides (xs @ [Itemref p s]) = page_sides xs @ (if s = Center then [] else [s])"
  by (simp add: page_sides_def)

lemma sides_inv_add_spine_page:
  "sides_inv st \<Longrightarrow> sides_inv (add_spine_page p (next_side st) st)"
  unfolding sides_inv_def add_spine_page_def
  using alternating_last_not_center [of Right "page_sides (spine_items st)" "next_side st"]
    alternating_snoc_flip [of Right "page_sides (spine_items st)" "next_side st"]
  by (simp add: page_sides_snoc)

lemma sides_inv_add_manifest [simp]: "sides_inv (add_manifest items st) = sides_inv st"
  by (simp add: sides_inv_def add_manifest_def)

lemma sides_inv_print_msg [simp]: "sides_inv (print_msg m st) = sides_inv st"
  by (simp add: sides_inv_def print_msg_def)

lemma sides_inv_emit_page: "sides_inv st \<Longrightarrow> sides_inv (emit_page img st)"
  by (simp add: emit_page_def Let_def sides_inv_add_spine_page)

lemma sides_inv_add_blank_page:
  "sides_inv st \<Longrightarrow> sides_inv (add_blank_page r (next_side st) st)"
  unfolding sides_inv_def add_blank_page_def add_spine_page_def
  using alternating_last_not_center [of Right "page_sides (spine_items st)" "next_side st"]
    alternating_snoc_flip [of Right "page_sides (spine_items st)" "next_side st"]
  by (simp add: page_sides_snoc Let_def)

lemma sides_inv_blank_before_double:
  "sides_inv st \<Longrightarrow> sides_inv (blank_before_double rd r rn st)"
  by (simp add: blank_before_double_def Let_def sides_inv_add_blank_page)

lemma sides_inv_emit_half_b: "sides_inv st \<Longrightarrow> sides_inv (emit_half_b img st)"
  by (simp add: emit_half_b_def sides_inv_emit_page)

lemma sides_inv_emit_cover: "sides_inv st \<Longrightarrow> sides_inv (emit_cover img st)"
  by (simp add: emit_cover_def sides_inv_def add_manifest_def page_sides_snoc)

lemma sides_inv_step:
  "sides_inv st \<Longrightarrow> sides_inv (snd (opf_step has_cover rd blank_res image_files i st))"
  by (simp add: opf_step_def Let_def sides_inv_emit_page sides_inv_emit_half_b
      sides_inv_blank_before_double sides_inv_emit_cover)

lemma sides_inv_initial: "sides_inv (initial_state txt)"
  by (simp add: sides_inv_def initial_state_def page_sides_def)

lemma sides_inv_next_side: "sides_inv st \<Longrightarrow> next_side st \<noteq> Center"
  unfolding sides_inv_def
  using alternating_last_not_center [of Right "page_sides (spine_items st)" "next_side st"]
  by simp

lemma plain_inv_print_msg [simp]: "plain_inv (print_msg m st) = plain_inv st"
  by (simp add: plain_inv_def no_center_def print_msg_def sides_inv_def)

lemma plain_inv_emit_page: "plain_inv st \<Longrightarrow> plain_inv (emit_page img st)"
  using sides_inv_emit_page [of st img] sides_inv_next_side [of st]
  by (simp add: plain_inv_def)
     (simp add: no_center_def emit_page_def add_manifest_def add_spine_page_def)

lemma plain_inv_blank_before_double:
  "plain_inv st \<Longrightarrow> plain_inv (blank_before_double rd r rn st)"
  using sides_inv_blank_before_double [of st rd r rn] sides_inv_next_side [of st]
  by (simp add: plain_inv_def)
     (simp add: no_center_def blank_before_double_def add_blank_page_def add_spine_page_def
        print_msg_def Let_def)

lemma plain_inv_emit_half_b: "plain_inv st \<Longrightarrow> plain_inv (emit_half_b img st)"
  by (simp add: emit_half_b_def plain_inv_emit_page)

lemma plain_inv_step:
  "plain_inv st \<Longrightarrow> plain_inv (snd (opf_step False rd blank_res image_files i st))"
  by (simp add: opf_step_def Let_def plain_inv_emit_page plain_inv_emit_half_b
      plain_inv_blank_before_double)

lemma plain_inv_initial: "plain_inv (initial_state txt)"
  by (simp add: plain_inv_def sides_inv_initial no_center_def)
     (simp add: initial_state_def)

lemma alternating_adjacent:
  "alternating s xs \<Longrightarrow> Suc k < length xs \<Longrightarrow> xs ! k \<noteq> xs ! Suc k"
proof (induction xs arbitrary: s k)
  case Nil
  then show ?case by simp
next
  case (Cons x xs)
  show ?case
  proof (cases k)
    case 0
    then show ?thesis using Cons.prems by (cases xs) (auto split: if_splits)
  next
    case (Suc j)
    then show ?thesis using Cons.prems Cons.IH [of _ j] by auto
  qed
qed

text \<open>
  Claim C2. In the spine that \<open>generate_content_opf\<close> builds, the sides of the entries
  that are not centred alternate, starting at right: consecutive sides differ. The centred
  cover entry takes no part in it. In a run without a cover no entry is centred, so the
  sides of the whole spine alternate starting at right.
\<close>

theorem spine_sides_alternate:
  "alternating Right
     (page_sides (spine_items (generate_content_opf has_cover rd blank_res images txt)))
   \<and> (\<forall>k. Suc k < length (page_sides
                (spine_items (generate_content_opf has_cover rd blank_res images txt)))
        \<longrightarrow> page_sides (spine_items (generate_content_opf has_cover rd blank_res images txt)) ! k
            \<noteq> page_sides (spine_items (generate_content_opf has_cover rd blank_res images txt))
                ! Suc k)
   \<and> (\<not> has_cover \<longrightarrow>
        alternating Right
          (map spread (spine_items (generate_content_opf has_cover rd blank_res images txt))))"
proof -
  let ?G = "generate_content_opf has_cover rd blank_res images txt"
  have "sides_inv ?G"
    unfolding generate_content_opf_def
    by (rule opf_loop_invariant [where P = sides_inv]) (simp_all add: sides_inv_initial sides_inv_step)
  then have a: "alternating Right (page_sides (spine_items ?G))"
    unfolding sides_inv_def by (rule alternating_butlast)
  have c: "alternating Right (map spread (spine_items ?G))" if "\<not> has_cover"
  proof -
    have "plain_inv ?G"
      using that unfolding generate_content_opf_def
      by (intro opf_loop_invariant [where P = plain_inv]) (simp_all add: plain_inv_initial plain_inv_step)
    then have "page_sides (spine_items ?G) = map spread (spine_items ?G)"
      by (force simp: plain_inv_def no_center_def page_sides_def filter_id_conv image_iff)
    then show ?thesis using a by simp
  qed
  show ?thesis
    using a c alternating_adjacent [OF a] by blast
qed

theorem spine_sides_alternate_witness:
  "\<not> False
   \<and> Suc 0 < length (page_sides (spine_items (generate_content_opf False ''rtl'' (1072, 1448)
         [(''p1.jpg'', Regular None), (''p2.jpg'', Regular None), (''p3.jpg'', Regular None)]
         [(''page_p1_F.xhtml'', Xhtml ''page_p1_F'' (10, 15) ''single-page'' (Some ''../Images/p1.jpg'')),
          (''page_p2_F.xhtml'', Xhtml ''page_p2_F'' (10, 15) ''single-page'' (Some ''../Images/p2.jpg'')),
          (''page_p3_F.xhtml'', Xhtml ''page_p3_F'' (10, 15) ''single-page'' (Some ''../Images/p3.jpg''))])))
   \<and> map spread (spine_items (generate_content_opf False ''rtl'' (1072, 1448)
         [(''p1.jpg'', Regular None), (''p2.jpg'', Regular None), (''p3.jpg'', Regular None)]
         [(''page_p1_F.xhtml'', Xhtml ''page_p1_F'' (10, 15) ''single-page'' (Some ''../Images/p1.jpg'')),
          (''page_p2_F.xhtml'', Xhtml ''page_p2_F'' (10, 15) ''single-page'' (Some ''../Images/p2.jpg'')),
          (''page_p3_F.xhtml'', Xhtml ''page_p3_F'' (10, 15) ''single-page'' (Some ''../Images/p3.jpg''))]))
       = [Right, Left, Right]
   \<and> alternating Right (map spread (spine_items (generate_content_opf False ''rtl'' (1072, 1448)
         [(''p1.jpg'', Regular None), (''p2.jpg'', Regular None), (''p3.jpg'', Regular None)]
         [(''page_p1_F.xhtml'', Xhtml ''page_p1_F'' (10, 15) ''single-page'' (Some ''../Images/p1.jpg'')),
          (''page_p2_F.xhtml'', Xhtml ''page_p2_F'' (10, 15) ''single-page'' (Some ''../Images/p2.jpg'')),
          (''page_p3_F.xhtml'', Xhtml ''page_p3_F'' (10, 15) ''single-page'' (Some ''../Images/p3.jpg''))])))"
proof -
  let ?G = "generate_content_opf False ''rtl'' (1072, 1448)
         [(''p1.jpg'', Regular None), (''p2.jpg'', Regular None), (''p3.jpg'', Regular None)]
         [(''page_p1_F.xhtml'', Xhtml ''page_p1_F'' (10, 15) ''single-page'' (Some ''../Images/p1.jpg'')),
          (''page_p2_F.xhtml'', Xhtml ''page_p2_F'' (10, 15) ''single-page'' (Some ''../Images/p2.jpg'')),
          (''page_p3_F.xhtml'', Xhtml ''page_p3_F'' (10, 15) ''single-page'' (Some ''../Images/p3.jpg''))]"
  have e: "map spread (spine_items ?G) = [Right, Left, Right]"
    by code_simp
  have p: "page_sides (spine_items ?G) = [Right, Left, Right]"
    by (simp add: page_sides_def e)
  show ?thesis
    using spine_sides_alternate [of False "''rtl''" "(1072, 1448)"
         "[(''p1.jpg'', Regular None), (''p2.jpg'', Regular None), (''p3.jpg'', Regular None)]"
         "[(''page_p1_F.xhtml'', Xhtml ''page_p1_F'' (10, 15) ''single-page'' (Some ''../Images/p1.jpg'')),
          (''page_p2_F.xhtml'', Xhtml ''page_p2_F'' (10, 15) ''single-page'' (Some ''../Images/p2.jpg'')),
          (''page_p3_F.xhtml'', Xhtml ''page_p3_F'' (10, 15) ''single-page'' (Some ''../Images/p3.jpg''))]"]
    by (simp add: e p)
qed

section \<open>Steps of the spine builder\<close>

lemma str_nat_last: "str_nat n \<noteq> [] \<and> last (str_nat n) = digit_char (n mod 10)"
  by (subst (1 2) str_nat.simps) simp

lemma digit_char_not_F: "k < 10 \<Longrightarrow> digit_char k \<noteq> CHR ''F''"
proof -
  assume "k < 10"
  then have "digit_char k \<in> set ''0123456789''"
    unfolding digit_char_def by (intro nth_mem) simp
  then show ?thesis by auto
qed

lemma xhtml_name_not_blank: "xhtml_name x \<noteq> ''page_blank_'' @ str_nat n @ ''.xhtml''"
proof
  assume "xhtml_name x = ''page_blank_'' @ str_nat n @ ''.xhtml''"
  then have "rev (xhtml_name x) ! 6 = rev (''page_blank_'' @ str_nat n @ ''.xhtml'') ! 6"
    by simp
  moreover have "rev (xhtml_name x) ! 6 = CHR ''F''"
    by (simp add: xhtml_name_def)
  moreover have "rev (''page_blank_'' @ str_nat n @ ''.xhtml'') ! 6 = last (str_nat n)"
    using str_nat_last [of n] by (simp add: nth_append hd_rev hd_conv_nth [symmetric])
  ultimately show False
    using str_nat_last [of n] digit_char_not_F [of "n mod 10"] by simp
qed

lemma path_exists_snoc:
  "path_exists (d @ [(f, x)]) g \<longleftrightarrow> path_exists d g \<or> g = f"
  by (auto simp: path_exists_def)

lemma text_files_add_manifest [simp]: "text_files (add_manifest items st) = text_files st"
  by (simp add: add_manifest_def)
lemma text_files_print_msg [simp]: "text_files (print_msg m st) = text_files st"
  by (simp add: print_msg_def)
lemma text_files_add_spine_page [simp]: "text_files (add_spine_page p s st) = text_files st"
  by (simp add: add_spine_page_def)
lemma text_files_emit_page [simp]: "text_files (emit_page img st) = text_files st"
  by (simp add: emit_page_def Let_def)

lemma path_exists_blank_before_double [simp]:
  "path_exists (text_files (blank_before_double rd r rn st)) (xhtml_name x)
   \<longleftrightarrow> path_exists (text_files st) (xhtml_name x)"
  using xhtml_name_not_blank [of x "Suc (blank_counter st)"]
  by (simp add: blank_before_double_def Let_def add_blank_page_def path_exists_snoc)






lemma next_side_emit_page:
  "next_side (emit_page img st) = (if next_side st = Right then Left else Right)"
  by (simp add: emit_page_def Let_def add_spine_page_def add_manifest_def)










section \<open>Blank pages\<close>




section \<open>A double spread without its second page document\<close>



section \<open>The cover\<close>



section \<open>Splitting a double page\<close>


lemma length_sanitize_name [simp]: "length (sanitize_name n) = length n"
  by (simp add: sanitize_name_def sanitize_with_def)




lemma split_part_ok:
  assumes "crop_ok io (safe_base @ ''_'' @ [c] @ ext) box"
    and "save_ok io (safe_base @ ''_'' @ [c] @ ext)"
    and "map_of (img_dir st) (safe_base @ ''_'' @ [c] @ ext) \<noteq> Some Directory"
    and "write_ok io (''page_'' @ safe_base @ ''_'' @ [c] @ ''_F.xhtml'')"
  shows "split_part io img safe_base ext half_width img_height (c, sd, box) st =
    (True,
     \<lparr>img_dir = AList.update (safe_base @ ''_'' @ [c] @ ext) (Regular (Some (crop img box))) (img_dir st),
      txt_dir = AList.update (''page_'' @ safe_base @ ''_'' @ [c] @ ''_F.xhtml'')
                  (Xhtml (''page_'' @ safe_base @ ''_'' @ [c] @ ''_F'') (half_width, img_height)
                     ''single-page'' (Some (''../Images/'' @ safe_base @ ''_'' @ [c] @ ext)))
                  (txt_dir st),
      notices = notices st @ [Created_split sd (''page_'' @ safe_base @ ''_'' @ [c] @ ''_F.xhtml'')
                                (half_width, img_height)]\<rparr>)"
  using assms by (simp add: split_part_def Let_def notify_def)

lemma try_split_ok:
  assumes o: "image_open (img_dir st) filename = Some img"
    and c: "\<And>f b. crop_ok io f b" and s: "\<And>f. save_ok io f" and wr: "\<And>f. write_ok io f"
    and na: "map_of (img_dir st) (safe_base @ ''_a'' @ ext) \<noteq> Some Directory"
    and nb: "map_of (img_dir st) (safe_base @ ''_b'' @ ext) \<noteq> Some Directory"
  shows "\<exists>st'. try_split io rd filename safe_base ext w h st = (True, st')
    \<and> img_dir st' =
        AList.update (safe_base @ ''_b'' @ ext)
          (Regular (Some (crop img (if rd = ''ltr'' then (w div 2, 0, w, h) else (0, 0, w div 2, h)))))
          (AList.update (safe_base @ ''_a'' @ ext)
             (Regular (Some (crop img (if rd = ''ltr'' then (0, 0, w div 2, h) else (w div 2, 0, w, h)))))
             (img_dir st))
    \<and> txt_dir st' =
        AList.update (''page_'' @ safe_base @ ''_b_F.xhtml'')
          (Xhtml (''page_'' @ safe_base @ ''_b_F'') (w div 2, h) ''single-page''
             (Some (''../Images/'' @ safe_base @ ''_b'' @ ext)))
          (AList.update (''page_'' @ safe_base @ ''_a_F.xhtml'')
             (Xhtml (''page_'' @ safe_base @ ''_a_F'') (w div 2, h) ''single-page''
                (Some (''../Images/'' @ safe_base @ ''_a'' @ ext)))
             (txt_dir st))"
proof -
  have a: "split_part io img safe_base ext (w div 2) h (CHR ''a'', sd, box) st =
    (True,
     \<lparr>img_dir = AList.update (safe_base @ ''_'' @ [CHR ''a''] @ ext) (Regular (Some (crop img box))) (img_dir st),
      txt_dir = AList.update (''page_'' @ safe_base @ ''_'' @ [CHR ''a''] @ ''_F.xhtml'')
                  (Xhtml (''page_'' @ safe_base @ ''_'' @ [CHR ''a''] @ ''_F'') (w div 2, h)
                     ''single-page'' (Some (''../Images/'' @ safe_base @ ''_'' @ [CHR ''a''] @ ext)))
                  (txt_dir st),
      notices = notices st @ [Created_split sd (''page_'' @ safe_base @ ''_'' @ [CHR ''a''] @ ''_F.xhtml'')
                                (w div 2, h)]\<rparr>)" for sd box
    using na by (intro split_part_ok c s wr) simp
  have b: "split_part io img safe_base ext (w div 2) h (CHR ''b'', sd, box) st1 =
    (True,
     \<lparr>img_dir = AList.update (safe_base @ ''_'' @ [CHR ''b''] @ ext) (Regular (Some (crop img box))) (img_dir st1),
      txt_dir = AList.update (''page_'' @ safe_base @ ''_'' @ [CHR ''b''] @ ''_F.xhtml'')
                  (Xhtml (''page_'' @ safe_base @ ''_'' @ [CHR ''b''] @ ''_F'') (w div 2, h)
                     ''single-page'' (Some (''../Images/'' @ safe_base @ ''_'' @ [CHR ''b''] @ ext)))
                  (txt_dir st1),
      notices = notices st1 @ [Created_split sd (''page_'' @ safe_base @ ''_'' @ [CHR ''b''] @ ''_F.xhtml'')
                                (w div 2, h)]\<rparr>)"
    if "map_of (img_dir st1) (safe_base @ ''_b'' @ ext) \<noteq> Some Directory" for sd box st1
    using that by (intro split_part_ok c s wr) simp
  show ?thesis
    using nb by (simp add: try_split_def o parts_for_def Let_def a b update_conv')
qed

lemma page_step_split_ok:
  assumes o: "map_of (img_dir st) filename = Some (Regular (Some img))"
    and e: "lower (snd (splitext filename)) \<in> set xhtml_image_extensions"
    and d: "is_double_page ratio_ge (width img) (height img)" and w: "1 < width img"
    and c: "\<And>f b. crop_ok io f b" and s: "\<And>f. save_ok io f" and wr: "\<And>f. write_ok io f"
    and na: "map_of (img_dir st)
               (sanitize_name (fst (splitext filename)) @ ''_a'' @ snd (splitext filename))
             \<noteq> Some Directory"
    and nb: "map_of (img_dir st)
               (sanitize_name (fst (splitext filename)) @ ''_b'' @ snd (splitext filename))
             \<noteq> Some Directory"
  shows "\<exists>st1. page_step io ratio_ge fallback rd filename st = Inr (remove_original io filename st1)
    \<and> img_dir st1 =
        AList.update (sanitize_name (fst (splitext filename)) @ ''_b'' @ snd (splitext filename))
          (Regular (Some (crop img (if rd = ''ltr''
             then (width img div 2, 0, width img, height img)
             else (0, 0, width img div 2, height img)))))
          (AList.update (sanitize_name (fst (splitext filename)) @ ''_a'' @ snd (splitext filename))
             (Regular (Some (crop img (if rd = ''ltr''
                then (0, 0, width img div 2, height img)
                else (width img div 2, 0, width img, height img)))))
             (img_dir st))
    \<and> txt_dir st1 =
        AList.update (''page_'' @ sanitize_name (fst (splitext filename)) @ ''_b_F.xhtml'')
          (Xhtml (''page_'' @ sanitize_name (fst (splitext filename)) @ ''_b_F'')
             (width img div 2, height img) ''single-page''
             (Some (''../Images/'' @ sanitize_name (fst (splitext filename)) @ ''_b''
                    @ snd (splitext filename))))
          (AList.update (''page_'' @ sanitize_name (fst (splitext filename)) @ ''_a_F.xhtml'')
             (Xhtml (''page_'' @ sanitize_name (fst (splitext filename)) @ ''_a_F'')
                (width img div 2, height img) ''single-page''
                (Some (''../Images/'' @ sanitize_name (fst (splitext filename)) @ ''_a''
                       @ snd (splitext filename))))
             (txt_dir st))"
proof -
  have op: "image_open (img_dir st) filename = Some img"
    by (simp add: image_open_def o)
  obtain st1 where t: "try_split io rd filename (sanitize_name (fst (splitext filename)))
        (snd (splitext filename)) (width img) (height img) st = (True, st1)"
    and i: "img_dir st1 =
        AList.update (sanitize_name (fst (splitext filename)) @ ''_b'' @ snd (splitext filename))
          (Regular (Some (crop img (if rd = ''ltr''
             then (width img div 2, 0, width img, height img)
             else (0, 0, width img div 2, height img)))))
          (AList.update (sanitize_name (fst (splitext filename)) @ ''_a'' @ snd (splitext filename))
             (Regular (Some (crop img (if rd = ''ltr''
                then (0, 0, width img div 2, height img)
                else (width img div 2, 0, width img, height img)))))
             (img_dir st))"
    and x: "txt_dir st1 =
        AList.update (''page_'' @ sanitize_name (fst (splitext filename)) @ ''_b_F.xhtml'')
          (Xhtml (''page_'' @ sanitize_name (fst (splitext filename)) @ ''_b_F'')
             (width img div 2, height img) ''single-page''
             (Some (''../Images/'' @ sanitize_name (fst (splitext filename)) @ ''_b''
                    @ snd (splitext filename))))
          (AList.update (''page_'' @ sanitize_name (fst (splitext filename)) @ ''_a_F.xhtml'')
             (Xhtml (''page_'' @ sanitize_name (fst (splitext filename)) @ ''_a_F'')
                (width img div 2, height img) ''single-page''
                (Some (''../Images/'' @ sanitize_name (fst (splitext filename)) @ ''_a''
                       @ snd (splitext filename))))
             (txt_dir st))"
    using try_split_ok [OF op c s wr na nb, of rd "width img" "height img"] by blast
  have "page_step io ratio_ge fallback rd filename st = Inr (remove_original io filename st1)"
    using e d w t by (simp add: page_step_def isfile_def o op split_beta)
  then show ?thesis using i x by blast
qed

lemma img_dir_remove_original:
  "img_dir (remove_original io filename st) =
     (if remove_ok io filename then AList.delete filename (img_dir st) else img_dir st)"
  by (simp add: remove_original_def notify_def)

lemma txt_dir_remove_original: "txt_dir (remove_original io filename st) = txt_dir st"
  by (simp add: remove_original_def notify_def)









section \<open>A split that fails\<close>




section \<open>Scenario A\<close>

lemma spine_single_then_double:
  "spine_items (generate_content_opf False ''rtl'' res
     ((''p1.jpg'', Regular (Some i1)) # rest_images)
     [(''page_p1_F.xhtml'', x1), (''page_p2_a_F.xhtml'', xa), (''page_p2_b_F.xhtml'', xb)])
   = [Itemref ''page_Images_p1_F'' Right, Itemref ''page_blank_1'' Left,
      Itemref ''page_Images_p2_a_F'' Right, Itemref ''page_Images_p2_b_F'' Left]"
  if "rest_images = [(''p2_a.jpg'', Regular (Some ia)), (''p2_b.jpg'', Regular (Some ib))]
      \<or> rest_images = [(''p2.jpg'', Regular (Some i2)), (''p2_a.jpg'', Regular (Some ia)),
                        (''p2_b.jpg'', Regular (Some ib))]"
proof -
  have "spine_items (generate_content_opf False ''rtl'' res
     [(''p1.jpg'', Regular (Some i1)), (''p2_a.jpg'', Regular (Some ia)),
      (''p2_b.jpg'', Regular (Some ib))]
     [(''page_p1_F.xhtml'', x1), (''page_p2_a_F.xhtml'', xa), (''page_p2_b_F.xhtml'', xb)])
   = [Itemref ''page_Images_p1_F'' Right, Itemref ''page_blank_1'' Left,
      Itemref ''page_Images_p2_a_F'' Right, Itemref ''page_Images_p2_b_F'' Left]"
    by code_simp
  moreover have "spine_items (generate_content_opf False ''rtl'' res
     [(''p1.jpg'', Regular (Some i1)), (''p2.jpg'', Regular (Some i2)),
      (''p2_a.jpg'', Regular (Some ia)), (''p2_b.jpg'', Regular (Some ib))]
     [(''page_p1_F.xhtml'', x1), (''page_p2_a_F.xhtml'', xa), (''page_p2_b_F.xhtml'', xb)])
   = [Itemref ''page_Images_p1_F'' Right, Itemref ''page_blank_1'' Left,
      Itemref ''page_Images_p2_a_F'' Right, Itemref ''page_Images_p2_b_F'' Left]"
    by code_simp
  ultimately show ?thesis using that by auto
qed

text \<open>
  Claim C3, as amended. The files are visited in sorted order of their names. For a
  right-to-left run without a cover whose inputs are a single page \<open>p1.jpg\<close> and a
  double page \<open>p2.jpg\<close> (ratio test true, width above 1, no failing crop, save or write),
  the spine is exactly \<open>p1\<close> right, \<open>blank_1\<close> left, \<open>p2_a\<close> right, \<open>p2_b\<close> left.
\<close>

theorem scenario_a_sorted_names:
  assumes "\<not> (is_double_page ratio_ge w1 h1 \<and> 1 < w1)"
    and "is_double_page ratio_ge w2 h2" and "1 < w2"
    and "\<And>f b. crop_ok io f b" and "\<And>f. save_ok io f" and "\<And>f. write_ok io f"
  shows "map_sum id spine_items
     (run_pipeline_folder io ratio_ge False ''rtl'' res
        [(''p1.jpg'', Regular (Some (Image w1 h1 d1))),
         (''p2.jpg'', Regular (Some (Image w2 h2 d2)))])
   = Inr [Itemref ''page_Images_p1_F'' Right, Itemref ''page_blank_1'' Left,
          Itemref ''page_Images_p2_a_F'' Right, Itemref ''page_Images_p2_b_F'' Left]"
proof -
  let ?D0 = "[(''p1.jpg'', Regular (Some (Image w1 h1 d1))),
         (''p2.jpg'', Regular (Some (Image w2 h2 d2)))]"
  let ?st0 = "\<lparr>img_dir = ?D0, txt_dir = [], notices = []\<rparr>"
  let ?x1 = "Xhtml ''page_p1_F'' (w1, h1) ''single-page'' (Some ''../Images/p1.jpg'')"
  let ?stA = "\<lparr>img_dir = ?D0, txt_dir = [(''page_p1_F.xhtml'', ?x1)],
               notices = [Created_single ''page_p1_F.xhtml'' (w1, h1)]\<rparr>"
  have names: "splitext ''p1.jpg'' = (''p1'', ''.jpg'')" "splitext ''p2.jpg'' = (''p2'', ''.jpg'')"
      "sanitize_name ''p1'' = ''p1''" "sanitize_name ''p2'' = ''p2''"
      "lower ''.jpg'' \<in> set xhtml_image_extensions" "normalize_direction ''rtl'' = ''rtl''"
      "listdir_sorted ?D0 = [''p1.jpg'', ''p2.jpg'']"
    by code_simp+
  have s1: "page_step io ratio_ge res ''rtl'' ''p1.jpg'' ?st0 = Inr ?stA"
    using assms(1) assms(6)
    by (auto simp: page_step_def isfile_def image_open_def names single_page_def notify_def Let_def)
  obtain st1 where s2: "page_step io ratio_ge res ''rtl'' ''p2.jpg'' ?stA
        = Inr (remove_original io ''p2.jpg'' st1)"
    and i: "img_dir st1 =
        [(''p1.jpg'', Regular (Some (Image w1 h1 d1))),
         (''p2.jpg'', Regular (Some (Image w2 h2 d2))),
         (''p2_a.jpg'', Regular (Some (crop (Image w2 h2 d2) (w2 div 2, 0, w2, h2)))),
         (''p2_b.jpg'', Regular (Some (crop (Image w2 h2 d2) (0, 0, w2 div 2, h2))))]"
    and x: "txt_dir st1 =
        [(''page_p1_F.xhtml'', ?x1),
         (''page_p2_a_F.xhtml'', Xhtml ''page_p2_a_F'' (w2 div 2, h2) ''single-page''
             (Some ''../Images/p2_a.jpg'')),
         (''page_p2_b_F.xhtml'', Xhtml ''page_p2_b_F'' (w2 div 2, h2) ''single-page''
             (Some ''../Images/p2_b.jpg''))]"
    using page_step_split_ok [of ?stA "''p2.jpg''" "Image w2 h2 d2" ratio_ge io res "''rtl''"]
      assms(2-6)
    by (auto simp: names)
  have g: "generate_xhtml_pages io ratio_ge res ''rtl'' ?st0
      = Inr (remove_original io ''p2.jpg'' st1)"
    by (simp add: generate_xhtml_pages_def names s1 s2)
  let ?rest = "if remove_ok io ''p2.jpg''
      then [(''p2_a.jpg'', Regular (Some (crop (Image w2 h2 d2) (w2 div 2, 0, w2, h2)))),
            (''p2_b.jpg'', Regular (Some (crop (Image w2 h2 d2) (0, 0, w2 div 2, h2))))]
      else [(''p2.jpg'', Regular (Some (Image w2 h2 d2))),
            (''p2_a.jpg'', Regular (Some (crop (Image w2 h2 d2) (w2 div 2, 0, w2, h2)))),
            (''p2_b.jpg'', Regular (Some (crop (Image w2 h2 d2) (0, 0, w2 div 2, h2))))]"
  have d: "img_dir (remove_original io ''p2.jpg'' st1)
      = (''p1.jpg'', Regular (Some (Image w1 h1 d1))) # ?rest"
    by (simp add: img_dir_remove_original i AList.delete_eq)
  have "spine_items (generate_content_opf False ''rtl'' res
          (img_dir (remove_original io ''p2.jpg'' st1)) (txt_dir (remove_original io ''p2.jpg'' st1)))
      = [Itemref ''page_Images_p1_F'' Right, Itemref ''page_blank_1'' Left,
          Itemref ''page_Images_p2_a_F'' Right, Itemref ''page_Images_p2_b_F'' Left]"
    unfolding d txt_dir_remove_original x
    by (rule spine_single_then_double
        [where ia = "crop (Image w2 h2 d2) (w2 div 2, 0, w2, h2)"
           and ib = "crop (Image w2 h2 d2) (0, 0, w2 div 2, h2)" and ?i2.0 = "Image w2 h2 d2"])
       simp
  then show ?thesis
    by (simp add: run_pipeline_folder_def g)
qed

theorem scenario_a_sorted_names_witness:
  "\<not> (is_double_page ge_13_10 100 150 \<and> (1::int) < 100)
   \<and> is_double_page ge_13_10 200 150 \<and> (1::int) < 200
   \<and> map_sum id spine_items
        (run_pipeline_folder io_ok ge_13_10 False ''rtl'' (1072, 1448)
           [(''p1.jpg'', Regular (Some (Image 100 150 (Whole ''p1.jpg'')))),
            (''p2.jpg'', Regular (Some (Image 200 150 (Whole ''p2.jpg''))))])
      = Inr [Itemref ''page_Images_p1_F'' Right, Itemref ''page_blank_1'' Left,
             Itemref ''page_Images_p2_a_F'' Right, Itemref ''page_Images_p2_b_F'' Left]"
proof -
  have h: "\<not> (is_double_page ge_13_10 100 150 \<and> (1::int) < 100)"
      "is_double_page ge_13_10 200 150" "(1::int) < 200"
    by code_simp+
  have k: "\<And>f b. crop_ok io_ok f b" "\<And>f. save_ok io_ok f" "\<And>f. write_ok io_ok f"
    by (simp_all add: io_ok_def)
  show ?thesis
    using scenario_a_sorted_names [OF h k, where res = "(1072, 1448)"
        and ?d1.0 = "Whole ''p1.jpg''" and ?d2.0 = "Whole ''p2.jpg''"] h
    by simp
qed

text \<open>
  With the names of the claim, \<open>s1.jpg\<close> and \<open>p2.jpg\<close>, the halves of the double page
  sort before the single page: the spine starts with the double spread and has no blank.
\<close>

theorem scenario_a_counterexample:
  "map_sum id spine_items
     (run_pipeline_folder io_ok ge_13_10 False ''rtl'' (1072, 1448)
        [(''s1.jpg'', Regular (Some (Image 100 150 (Whole ''s1.jpg'')))),
         (''p2.jpg'', Regular (Some (Image 200 150 (Whole ''p2.jpg''))))])
   = Inr [Itemref ''page_Images_p2_a_F'' Right, Itemref ''page_Images_p2_b_F'' Left,
          Itemref ''page_Images_s1_F'' Right]"
  by code_simp

section \<open>The archive\<close>

lemma walk_prefix: "walk dirpath t = map (\<lambda>(p, c). (dirpath @ p, c)) (walk [] t)"
proof (induction t arbitrary: dirpath)
  case (Tree fs ds)
  have r: "walk (q @ [d]) t = map (\<lambda>(p, c). (q @ p, c)) (walk [d] t)"
    if "(d, t) \<in> set ds" for d t q
  proof -
    have t: "t \<in> Basic_BNFs.snds (d, t)" by simp
    have "walk (q @ [d]) t = map (\<lambda>(p, c). ((q @ [d]) @ p, c)) (walk [] t)"
      by (rule Tree.IH [OF that t])
    moreover have "walk [d] t = map (\<lambda>(p, c). ([d] @ p, c)) (walk [] t)"
      by (rule Tree.IH [OF that t])
    ultimately show ?thesis by (simp add: split_beta)
  qed
  have "map (\<lambda>x. walk (dirpath @ [fst x]) (snd x)) ds
      = map (\<lambda>x. map (\<lambda>y. (dirpath @ fst y, snd y)) (walk [fst x] (snd x))) ds"
    by (rule map_cong) (auto simp: r case_prod_unfold)
  then have "concat (map (\<lambda>x. walk (dirpath @ [fst x]) (snd x)) ds)
      = concat (map (\<lambda>x. map (\<lambda>y. (dirpath @ fst y, snd y)) (walk [fst x] (snd x))) ds)"
    by (simp only:)
  then show ?case
    by (simp add: map_concat case_prod_unfold comp_def)
qed

text \<open>
  Claim C8. When the working tree has a \<open>mimetype\<close> file at its root, the archive that
  \<open>create_epub_from_temp\<close> writes starts with the entry \<open>mimetype\<close>, stored without
  compression; every other file of the tree follows in the order of the walk, deflated,
  under its path relative to the working root.
\<close>

theorem mimetype_first_and_stored:
  assumes "map_of (files t) ''mimetype'' = Some c"
  shows "\<exists>others. create_epub_from_temp base_path (Some t)
             = Inr (Zip_entry ''mimetype'' ZIP_STORED c # others)
    \<and> (\<forall>e \<in> set others. compress_type e = ZIP_DEFLATED)
    \<and> map (\<lambda>e. (arcname e, content e)) others
        = map (\<lambda>(p, c). (join_path p, c))
            (filter (\<lambda>(p, c). p \<noteq> [''mimetype'']) (walk [] t))"
proof -
  let ?temp_dir = "base_path @ [''temp'']"
  let ?others = "map (\<lambda>(full_path, c).
                        Zip_entry (join_path (relpath full_path ?temp_dir)) ZIP_DEFLATED c)
                   (filter (\<lambda>(full_path, c). full_path \<noteq> ?temp_dir @ [''mimetype''])
                      (walk ?temp_dir t))"
  have c: "create_epub_from_temp base_path (Some t)
      = Inr (Zip_entry ''mimetype'' ZIP_STORED c # ?others)"
    using assms by (simp add: create_epub_from_temp_def Let_def)
  have d: "\<forall>e \<in> set ?others. compress_type e = ZIP_DEFLATED"
    by auto
  have "map (\<lambda>e. (arcname e, content e)) ?others
      = map (\<lambda>(p, c). (join_path p, c))
            (filter (\<lambda>(p, c). p \<noteq> [''mimetype'']) (walk [] t))"
    by (subst walk_prefix)
       (simp add: filter_map comp_def case_prod_unfold relpath_def)
  then show ?thesis
    using c d by blast
qed

theorem mimetype_first_and_stored_witness:
  "map_of (files demo_tree) ''mimetype'' = Some ''application/epub+zip''
   \<and> create_epub_from_temp [''home'', ''books''] (Some demo_tree)
       = Inr [Zip_entry ''mimetype'' ZIP_STORED ''application/epub+zip'',
              Zip_entry ''notes.txt'' ZIP_DEFLATED ''n'',
              Zip_entry ''OEBPS/content.opf'' ZIP_DEFLATED ''o'',
              Zip_entry ''OEBPS/mimetype'' ZIP_DEFLATED ''m'',
              Zip_entry ''OEBPS/Text/style.css'' ZIP_DEFLATED ''s'',
              Zip_entry ''META-INF/container.xml'' ZIP_DEFLATED ''c'']"
proof -
  have h: "map_of (files demo_tree) ''mimetype'' = Some ''application/epub+zip''"
    by code_simp
  have w: "map (\<lambda>(p, c). (join_path p, c))
            (filter (\<lambda>(p, c). p \<noteq> [''mimetype'']) (walk [] demo_tree))
      = [(''notes.txt'', ''n''), (''OEBPS/content.opf'', ''o''), (''OEBPS/mimetype'', ''m''),
         (''OEBPS/Text/style.css'', ''s''), (''META-INF/container.xml'', ''c'')]"
    by code_simp
  obtain others where c: "create_epub_from_temp [''home'', ''books''] (Some demo_tree)
             = Inr (Zip_entry ''mimetype'' ZIP_STORED ''application/epub+zip'' # others)"
    and d: "\<forall>e \<in> set others. compress_type e = ZIP_DEFLATED"
    and m: "map (\<lambda>e. (arcname e, content e)) others
        = map (\<lambda>(p, c). (join_path p, c))
            (filter (\<lambda>(p, c). p \<noteq> [''mimetype'']) (walk [] demo_tree))"
    using mimetype_first_and_stored [OF h, of "[''home'', ''books'']"] by blast
  have "others = [Zip_entry ''notes.txt'' ZIP_DEFLATED ''n'',
              Zip_entry ''OEBPS/content.opf'' ZIP_DEFLATED ''o'',
              Zip_entry ''OEBPS/mimetype'' ZIP_DEFLATED ''m'',
              Zip_entry ''OEBPS/Text/style.css'' ZIP_DEFLATED ''s'',
              Zip_entry ''META-INF/container.xml'' ZIP_DEFLATED ''c'']"
    using d m unfolding w
    by (auto simp: map_eq_Cons_conv zip_entry.expand)
  then show ?thesis
    using h c by simp
qed

end
